theory Spec2Isabelle
  imports Complex_Main
begin

section \<open>Data model\<close>

text \<open>
  The flow engine of \<^verbatim>\<open>src/hooks/useFlows.ts\<close>. A JavaScript \<^verbatim>\<open>number\<close> that the
  caller supplies (a parameter, a coordinate, a magnitude) is a \<^typ>\<open>real\<close>: arithmetic is the
  exact one, rounding of doubles is not modelled. Where the code can leave the finite numbers
  (a division by zero, a read past the end of an array) the value is a \<^typ>\<open>real option\<close>
  and \<open>None\<close> stands for \<^verbatim>\<open>NaN\<close> and the two infinities. A GeoJSON \<^verbatim>\<open>Position\<close> is
  the pair the code destructures, \<^verbatim>\<open>[x, y]\<close>.
\<close>

type_synonym position = "real \<times> real"

text \<open>\<^verbatim>\<open>Flow\<close>; the field \<^verbatim>\<open>value\<close> is \<open>flow_value\<close>. An optional field is an option.\<close>

record flow =
  source :: position
  target :: position
  sourceId :: string
  targetId :: string
  routeGeometry :: "position list option"
  flow_value :: real
  valuesRatiosByFoodGroup :: "real list option"

text \<open>\<^verbatim>\<open>Path\<close>.\<close>

record path =
  coordinates :: "position list"
  distances :: "real list"
  totalDistance :: real

text \<open>\<^verbatim>\<open>Waypoint\<close> and \<^verbatim>\<open>Trip\<close>; a category is the string that names it.\<close>

record waypoint =
  wp_coordinates :: position
  timestamp :: "real option"

record trip =
  waypoints :: "waypoint list"
  color :: "nat list"
  foodGroup :: string

datatype error = TypeError

text \<open>
  \<^verbatim>\<open>Math.random()\<close>: the sequence of its results is a function of the number of calls made
  so far, and every function that draws threads that number through. Each result lies
  in \<open>[0, 1)\<close>.
\<close>

type_synonym random = "nat \<Rightarrow> real"

definition in_unit :: "random \<Rightarrow> bool" where
  "in_unit rnd \<longleftrightarrow> (\<forall>n. 0 \<le> rnd n \<and> rnd n < 1)"

text \<open>Arithmetic that can leave the finite numbers.\<close>

definition jdiv :: "real option \<Rightarrow> real \<Rightarrow> real option" where
  "jdiv a b = (case a of None \<Rightarrow> None | Some x \<Rightarrow> if b = 0 then None else Some (x / b))"

definition jadd :: "real option \<Rightarrow> real option \<Rightarrow> real option" where
  "jadd a b = (case (a, b) of (Some x, Some y) \<Rightarrow> Some (x + y) | _ \<Rightarrow> None)"

definition jsub :: "real option \<Rightarrow> real option \<Rightarrow> real option" where
  "jsub a b = (case (a, b) of (Some x, Some y) \<Rightarrow> Some (x - y) | _ \<Rightarrow> None)"

definition jmul :: "real option \<Rightarrow> real option \<Rightarrow> real option" where
  "jmul a b = (case (a, b) of (Some x, Some y) \<Rightarrow> Some (x * y) | _ \<Rightarrow> None)"

text \<open>\<^verbatim>\<open>xs[i]\<close> read as a number: past the end it is \<^verbatim>\<open>undefined\<close>, in a sum \<^verbatim>\<open>NaN\<close>.\<close>

definition nth_number :: "real list \<Rightarrow> nat \<Rightarrow> real option" where
  "nth_number xs i = (if i < length xs then Some (xs ! i) else None)"

text \<open>
  \<^verbatim>\<open>for (let i = 0; i < bound; i++) body\<close>, the bound a number that need not be whole.
  The second loop is the one whose body can throw.
\<close>

function for_loop :: "real \<Rightarrow> (nat \<Rightarrow> 's \<Rightarrow> 's) \<Rightarrow> nat \<Rightarrow> 's \<Rightarrow> 's" where
  "for_loop bound body i s =
     (if real i < bound then for_loop bound body (Suc i) (body i s) else s)"
  by pat_completeness auto
termination
  by (relation "measure (\<lambda>(bound, body, i, s). nat \<lceil>bound\<rceil> - i)") (auto, linarith)

function for_loop_err ::
  "real \<Rightarrow> (nat \<Rightarrow> 's \<Rightarrow> error + 's) \<Rightarrow> nat \<Rightarrow> 's \<Rightarrow> error + 's" where
  "for_loop_err bound body i s =
     (if real i < bound
      then (case body i s of Inl e \<Rightarrow> Inl e | Inr s' \<Rightarrow> for_loop_err bound body (Suc i) s')
      else Inr s)"
  by pat_completeness auto
termination
  by (relation "measure (\<lambda>(bound, body, i, s). nat \<lceil>bound\<rceil> - i)") (auto, linarith)

declare for_loop.simps [simp del]
declare for_loop_err.simps [simp del]

section \<open>The flow normalizer: the callback of \<^verbatim>\<open>useFlows\<close>\<close>

text \<open>\<^verbatim>\<open>RawCountyWithFlows\<close>, with the two breakdowns left abstract.\<close>

record ('a, 'b) raw_county =
  county_id :: string
  county_centroid :: position
  route_geometry :: "string option"
  route_direction :: "string option"
  flowsByCrop :: 'a
  flowsByCropGroup :: 'b

text \<open>
  What the callback reads from its closure: the flow type, the id and the centroid of the
  selected county, and the two imported functions whose code is not part of the sources,
  \<^verbatim>\<open>getStats\<close> of \<^verbatim>\<open>@/utils\<close> (its \<^verbatim>\<open>total\<close> and \<^verbatim>\<open>byCropGroupCumulative\<close>) and
  \<^verbatim>\<open>polyline.decode\<close> of \<^verbatim>\<open>google-polyline\<close>.
\<close>

record ('a, 'b) closure =
  flowType :: string
  selectedId :: string
  selectedCentroid :: position
  getStats :: "'b \<Rightarrow> 'a \<Rightarrow> real \<times> real list option"
  decode :: "string \<Rightarrow> position list"

text \<open>\<^verbatim>\<open>route_geometry ? ... : undefined\<close>: a string is truthy when it is not empty.\<close>

definition truthy_string :: "string option \<Rightarrow> bool" where
  "truthy_string s = (case s of None \<Rightarrow> False | Some t \<Rightarrow> t \<noteq> [])"

definition swap_pair :: "position \<Rightarrow> position" where
  "swap_pair p = (case p of (lng, lat) \<Rightarrow> (lat, lng))"

definition toFlow :: "('a, 'b) closure \<Rightarrow> ('a, 'b) raw_county \<Rightarrow> flow" where
  "toFlow c r =
     (let (total, byCropGroupCumulative) = getStats c (flowsByCropGroup r) (flowsByCrop r);
          v = max 1 (total / 200000000);
          src = (if flowType c = ''consumer'' then county_centroid r else selectedCentroid c);
          tgt = (if flowType c = ''consumer'' then selectedCentroid c else county_centroid r);
          sid = (if flowType c = ''consumer'' then county_id r else selectedId c);
          tid = (if flowType c = ''consumer'' then selectedId c else county_id r);
          geometry = (case route_geometry r of
                        None \<Rightarrow> None
                      | Some s \<Rightarrow> if truthy_string (Some s)
                                  then Some (map swap_pair (decode c s)) else None);
          geometry' = (if route_direction r = Some ''backward''
                       then map_option rev geometry else geometry)
      in \<lparr> source = src, target = tgt, sourceId = sid, targetId = tid,
           routeGeometry = geometry', flow_value = v,
           valuesRatiosByFoodGroup = byCropGroupCumulative \<rparr>)"

text \<open>
  \<^verbatim>\<open>useFlows\<close>: nothing without a selected county, counties or data; otherwise the first
  \<^verbatim>\<open>maxTargetCounties\<close> records of \<^verbatim>\<open>inbound || outbound\<close>, each made a flow.
  \<^verbatim>\<open>slice(0, n)\<close> counts a negative \<open>n\<close> from the end; \<open>n\<close> is the integer part
  of the control. Reading \<^verbatim>\<open>slice\<close> of \<^verbatim>\<open>undefined\<close> throws.
\<close>

definition slice0 :: "int \<Rightarrow> 'x list \<Rightarrow> 'x list" where
  "slice0 n xs = (if n < 0 then take (nat (int (length xs) + n)) xs else take (nat n) xs)"

definition useFlows ::
  "('a, 'b) closure option \<Rightarrow> bool \<Rightarrow>
   (('a, 'b) raw_county list option \<times> ('a, 'b) raw_county list option) option \<Rightarrow>
   int \<Rightarrow> error + flow list" where
  "useFlows selected counties flowsData maxTargetCounties =
     (case selected of None \<Rightarrow> Inr []
      | Some c \<Rightarrow>
          if \<not> counties then Inr []
          else (case flowsData of None \<Rightarrow> Inr []
                | Some (inbound, outbound) \<Rightarrow>
                    (case (case inbound of Some fs \<Rightarrow> Some fs | None \<Rightarrow> outbound) of
                       None \<Rightarrow> Inl TypeError
                     | Some fs \<Rightarrow> Inr (map (toFlow c) (slice0 maxTargetCounties fs)))))"

section \<open>The path synthesizer\<close>

text \<open>
  The functions of \<^verbatim>\<open>@turf/turf\<close> and \<^verbatim>\<open>@turf/bezier-spline\<close> the module calls; they
  are library code, taken as they come: \<^verbatim>\<open>distance\<close> of two points,
  \<^verbatim>\<open>bezierSpline\<close> of a line (its coordinates), and the point \<^verbatim>\<open>circle\<close> samples at a
  distance and a bearing from its centre, in the given units.
\<close>

record turf =
  distance :: "position \<Rightarrow> position \<Rightarrow> real"
  bezierSpline :: "position list \<Rightarrow> position list"
  destination :: "position \<Rightarrow> real \<Rightarrow> real \<Rightarrow> string \<Rightarrow> position"

text \<open>
  Modelled from the spec: \<^verbatim>\<open>getDistances\<close> is imported from \<^verbatim>\<open>@/utils\<close>, which is not
  among the sources. The spec (4.1): for a coordinate sequence of length N it returns the
  N - 1 segment distances and their sum; for N \<open>\<le>\<close> 1 an empty list and total 0.
\<close>

definition getDistances :: "turf \<Rightarrow> position list \<Rightarrow> real list \<times> real" where
  "getDistances T coords =
     (let ds = map (\<lambda>(a, b). distance T a b) (zip coords (tl coords))
      in (ds, sum_list ds))"

text \<open>
  Modelled from the spec: \<^verbatim>\<open>circle\<close> is turf's, not among the sources. The spec (4.4,
  self-loop): a closed ring approximating a circle of the given radius centred at the given
  point, sampled at the given number of boundary points, whose first and last points
  coincide. The result is a polygon: the list of its rings, here the one ring.
\<close>

definition circle :: "turf \<Rightarrow> position \<Rightarrow> real \<Rightarrow> nat \<Rightarrow> string \<Rightarrow> position list list" where
  "circle T center radius steps units =
     (let boundary = map (\<lambda>i. destination T center radius (- (real i * 360 / real steps)) units)
                         [0..<steps]
      in [boundary @ take 1 boundary])"

text \<open>\<^verbatim>\<open>Math.atan2\<close>, the angle of the point \<open>(x, y)\<close>.\<close>

definition atan2 :: "real \<Rightarrow> real \<Rightarrow> real" where
  "atan2 y x =
     (if 0 < x then arctan (y / x)
      else if x < 0 then (if 0 \<le> y then arctan (y / x) + pi else arctan (y / x) - pi)
      else if 0 < y then pi / 2
      else if y < 0 then - (pi / 2)
      else 0)"

record curved_params =
  linesPerLinkMultiplicator :: real
  maxLinesPerLink :: real
  minWaypointsPer1000km :: real
  maxWaypointsPer1000km :: real
  minDeviationDegrees :: real
  maxDeviationDegrees :: real
  smooth :: bool

text \<open>The defaults of \<^verbatim>\<open>getCurvedPaths\<close>, and the controls \<^verbatim>\<open>useFlowsWithCurvedPaths\<close> starts with.\<close>

definition default_curved_params :: curved_params where
  "default_curved_params =
     \<lparr> linesPerLinkMultiplicator = 1, maxLinesPerLink = 30, minWaypointsPer1000km = 4,
       maxWaypointsPer1000km = 8, minDeviationDegrees = 0, maxDeviationDegrees = 0.6,
       smooth = False \<rparr>"

definition control_curved_params :: curved_params where
  "control_curved_params = default_curved_params \<lparr> linesPerLinkMultiplicator := 3 \<rparr>"

text \<open>The locals of the waypoint loop's body: \<^verbatim>\<open>deviation\<close> and \<^verbatim>\<open>waypoint\<close>.\<close>

definition deviation :: "curved_params \<Rightarrow> nat \<Rightarrow> real \<Rightarrow> real" where
  "deviation ps waypointIndex r =
     (let deviationSign = (if waypointIndex mod 2 = 0 then 1 else - 1)
      in deviationSign * r * (maxDeviationDegrees ps - minDeviationDegrees ps)
         + minDeviationDegrees ps)"

definition curved_waypoint :: "flow \<Rightarrow> curved_params \<Rightarrow> int \<Rightarrow> nat \<Rightarrow> real \<Rightarrow> position" where
  "curved_waypoint link ps numWaypoints waypointIndex r =
     (let (startX, startY) = source link;
          (endX, endY) = target link;
          waypointRatio = (1 / (real_of_int numWaypoints + 1)) * (real waypointIndex + 1);
          dev = deviation ps waypointIndex r;
          midX = startX + (endX - startX) * waypointRatio;
          midY = startY + (endY - startY) * waypointRatio;
          angle = atan2 (endY - startY) (endX - startX)
      in (dev * cos angle + midX, - dev * sin angle + midY))"

text \<open>
  The body of the line loop: the state is the number of random draws made and the paths
  pushed so far.
\<close>

definition curved_line ::
  "turf \<Rightarrow> random \<Rightarrow> flow \<Rightarrow> curved_params \<Rightarrow> int \<Rightarrow> int \<Rightarrow>
   nat \<Rightarrow> nat \<times> path list \<Rightarrow> nat \<times> path list" where
  "curved_line T rnd link ps minWaypoints maxWaypoints lineIndex st =
     (let (k, paths) = st;
          numWaypoints = \<lfloor>rnd k * (1 + real_of_int maxWaypoints - real_of_int minWaypoints)\<rfloor>
                         + minWaypoints;
          (k', wps) = for_loop (real_of_int numWaypoints)
                        (\<lambda>waypointIndex (j, ws).
                            (Suc j, ws @ [curved_waypoint link ps numWaypoints waypointIndex (rnd j)]))
                        0 (Suc k, []);
          allWaypoints = [source link] @ wps @ [target link];
          coords = (if smooth ps then bezierSpline T allWaypoints else allWaypoints);
          (ds, total) = getDistances T coords
      in (k', paths @ [\<lparr> coordinates = coords, distances = ds, totalDistance = total \<rparr>]))"

definition numLinesPerLink :: "flow \<Rightarrow> curved_params \<Rightarrow> real" where
  "numLinesPerLink link ps =
     min (real_of_int (round (flow_value link * linesPerLinkMultiplicator ps)))
         (maxLinesPerLink ps)"

text \<open>\<^verbatim>\<open>getCurvedPaths\<close>, from the draw \<open>k\<close> on: the draws made, and the paths.\<close>

definition getCurvedPaths ::
  "turf \<Rightarrow> random \<Rightarrow> nat \<Rightarrow> flow \<Rightarrow> curved_params \<Rightarrow> nat \<times> path list" where
  "getCurvedPaths T rnd k link ps =
     (let dst = distance T (source link) (target link);
          minWaypoints = round ((dst / 1000) * minWaypointsPer1000km ps);
          maxWaypoints = round ((dst / 1000) * maxWaypointsPer1000km ps)
      in for_loop (numLinesPerLink link ps)
           (curved_line T rnd link ps minWaypoints maxWaypoints) 0 (k, []))"

definition getSelfPath :: "turf \<Rightarrow> flow \<Rightarrow> path list" where
  "getSelfPath T link =
     (let circleCoords = hd (circle T (source link) 30 20 ''kilometers'');
          (ds, total) = getDistances T circleCoords
      in [\<lparr> coordinates = circleCoords, distances = ds, totalDistance = total \<rparr>])"


text \<open>
  The callbacks of \<^verbatim>\<open>useFlowsWithCurvedPaths\<close> and \<^verbatim>\<open>useFlowsWithRoadPaths\<close>: the paths of
  one flow, a self-loop's by \<^verbatim>\<open>getSelfPath\<close> in both.
\<close>

definition curvedPathsOf ::
  "turf \<Rightarrow> random \<Rightarrow> nat \<Rightarrow> curved_params \<Rightarrow> flow \<Rightarrow> nat \<times> path list" where
  "curvedPathsOf T rnd k ps l =
     (let isSelf = (sourceId l = targetId l)
      in if isSelf then (k, getSelfPath T l) else getCurvedPaths T rnd k l ps)"


section \<open>The trip simulator\<close>

record trip_params =
  numParticlesMultiplicator :: real
  fromTimestamp :: real
  toTimeStamp :: real
  intervalHumanize :: real
  speedKps :: real
  speedKpsHumanize :: real
  maxParticles :: real

text \<open>The defaults of \<^verbatim>\<open>getPathTrips\<close>.\<close>

definition default_trip_params :: trip_params where
  "default_trip_params =
     \<lparr> numParticlesMultiplicator = 1, fromTimestamp = 0, toTimeStamp = 100,
       intervalHumanize = 0.5, speedKps = 100, speedKpsHumanize = 0.5, maxParticles = 500 \<rparr>"

text \<open>
  The tables of \<^verbatim>\<open>@/constants\<close> and the helper \<^verbatim>\<open>hexToRgb\<close> of \<^verbatim>\<open>@/utils\<close>, which are
  not among the sources: the ordered categories, the colour \<^verbatim>\<open>CATEGORIES_PROPS\<close> records
  for a category (if it has an entry), and the conversion of that colour to its channels.
\<close>

record tables =
  CATEGORIES :: "string list"
  CATEGORIES_PROPS :: "string \<Rightarrow> string option"
  hexToRgb :: "string \<Rightarrow> nat list"

text \<open>
  \<^verbatim>\<open>CATEGORIES_PROPS[CATEGORIES[categoryIndex]].color\<close>: an index past the table gives
  \<^verbatim>\<open>undefined\<close>, which has no entry, and reading \<^verbatim>\<open>color\<close> of no entry throws.
\<close>

definition lookup_category :: "tables \<Rightarrow> nat \<Rightarrow> error + string \<times> nat list" where
  "lookup_category tb categoryIndex =
     (if categoryIndex < length (CATEGORIES tb)
      then (let category = CATEGORIES tb ! categoryIndex
            in case CATEGORIES_PROPS tb category of
                 None \<Rightarrow> Inl TypeError
               | Some categoryColor \<Rightarrow> Inr (category, hexToRgb tb categoryColor))
      else Inl TypeError)"

text \<open>
  The reduction over \<^verbatim>\<open>flow.valuesRatiosByFoodGroup\<close>, from \<^verbatim>\<open>null\<close>: the accumulator
  keeps the first index whose ratio exceeds the draw. \<^verbatim>\<open>|| 0\<close> turns both \<^verbatim>\<open>null\<close> and
  the index 0 into 0.
\<close>

fun category_reduce :: "real \<Rightarrow> real list \<Rightarrow> nat \<Rightarrow> nat option \<Rightarrow> nat option" where
  "category_reduce r [] i acc = acc"
| "category_reduce r (ratio # ratios) i acc =
     category_reduce r ratios (Suc i)
       (case acc of Some a \<Rightarrow> Some a | None \<Rightarrow> if r < ratio then Some i else None)"

definition categoryIndex :: "real list \<Rightarrow> real \<Rightarrow> nat" where
  "categoryIndex ratios randomCategoryRatio =
     (case category_reduce randomCategoryRatio ratios 0 None of None \<Rightarrow> 0 | Some i \<Rightarrow> i)"

text \<open>
  The reduction over \<^verbatim>\<open>path.coordinates\<close>: the accumulator is the distance covered and
  the waypoints so far; \<open>idx\<close> is \<^verbatim>\<open>currentIndex\<close>.
\<close>

fun waypoints_reduce ::
  "path \<Rightarrow> real \<Rightarrow> real option \<Rightarrow> position list \<Rightarrow> nat \<Rightarrow>
   real option \<times> waypoint list \<Rightarrow> real option \<times> waypoint list" where
  "waypoints_reduce p tStart tDelta [] idx acc = acc"
| "waypoints_reduce p tStart tDelta (currentCoords # rest) idx acc =
     (let accDistance = fst acc;
          accDistanceRatio = jdiv accDistance (totalDistance p);
          t = jadd (Some tStart) (jmul accDistanceRatio tDelta)
      in waypoints_reduce p tStart tDelta rest (Suc idx)
           (jadd accDistance (nth_number (distances p) idx),
            snd acc @ [\<lparr> wp_coordinates = currentCoords, timestamp = t \<rparr>]))"

text \<open>
  The locals of \<^verbatim>\<open>getPathTrips\<close>. \<^verbatim>\<open>interval\<close> is read only inside the loop, where
  \<^verbatim>\<open>numParticles\<close> is positive.
\<close>

definition numParticles :: "trip_params \<Rightarrow> flow \<Rightarrow> real" where
  "numParticles ps f = min (flow_value f * numParticlesMultiplicator ps) (maxParticles ps)"

definition interval :: "trip_params \<Rightarrow> flow \<Rightarrow> real" where
  "interval ps f = (toTimeStamp ps - fromTimestamp ps) / numParticles ps f"

definition humanizedSpeedKps :: "trip_params \<Rightarrow> real \<Rightarrow> real" where
  "humanizedSpeedKps ps r = speedKps ps + (r - 0.5) * 2 * speedKps ps * speedKpsHumanize ps"

definition baseDuration :: "path \<Rightarrow> real \<Rightarrow> real option" where
  "baseDuration p speed = jdiv (Some (totalDistance p)) speed"

definition timestampStart :: "trip_params \<Rightarrow> flow \<Rightarrow> nat \<Rightarrow> real \<Rightarrow> real" where
  "timestampStart ps f i r =
     fromTimestamp ps + real i * interval ps f
       + (r - 0.5) * 2 * interval ps f * intervalHumanize ps"

definition timestampEnd :: "path \<Rightarrow> real \<Rightarrow> real \<Rightarrow> real option" where
  "timestampEnd p tStart speed = jadd (Some tStart) (baseDuration p speed)"

text \<open>
  The waypoints of particle \<open>i\<close>, built before the category is looked at, from the draws
  \<open>k\<close> (speed) and \<open>k + 1\<close> (start).
\<close>

definition particle_waypoints ::
  "random \<Rightarrow> path \<Rightarrow> flow \<Rightarrow> trip_params \<Rightarrow> nat \<Rightarrow> nat \<Rightarrow> waypoint list" where
  "particle_waypoints rnd p f ps i k =
     (let speed = humanizedSpeedKps ps (rnd k);
          tStart = timestampStart ps f i (rnd (k + 1));
          tEnd = timestampEnd p tStart speed;
          timestampDelta = jsub tEnd (Some tStart)
      in snd (waypoints_reduce p tStart timestampDelta (coordinates p) 0 (Some 0, [])))"

text \<open>
  The body of the particle loop; the state is the number of draws made and the trips pushed.
  Without category shares the iteration ends after two draws (\<^verbatim>\<open>continue\<close>); otherwise a
  third draw picks the category and the trip is pushed.
\<close>

definition particle ::
  "tables \<Rightarrow> random \<Rightarrow> path \<Rightarrow> flow \<Rightarrow> trip_params \<Rightarrow>
   nat \<Rightarrow> nat \<times> trip list \<Rightarrow> error + nat \<times> trip list" where
  "particle tb rnd p f ps i st =
     (let (k, trips) = st;
          wps = particle_waypoints rnd p f ps i k
      in case valuesRatiosByFoodGroup f of
           None \<Rightarrow> Inr (k + 2, trips)
         | Some ratios \<Rightarrow>
             (case lookup_category tb (categoryIndex ratios (rnd (k + 2))) of
                Inl e \<Rightarrow> Inl e
              | Inr (category, rgb) \<Rightarrow>
                  Inr (k + 3, trips @ [\<lparr> waypoints = wps, color = rgb @ [255],
                                         foodGroup = category \<rparr>])))"

text \<open>\<^verbatim>\<open>getPathTrips\<close>, from the draw \<open>k\<close> on: the draws made and the trips, or the error thrown.\<close>

definition getPathTrips ::
  "tables \<Rightarrow> random \<Rightarrow> nat \<Rightarrow> path \<Rightarrow> flow \<Rightarrow> trip_params \<Rightarrow> error + nat \<times> trip list" where
  "getPathTrips tb rnd k p f ps =
     for_loop_err (numParticles ps f) (particle tb rnd p f ps) 0 (k, [])"

text \<open>
  No lookup of \<^verbatim>\<open>getPathTrips\<close> throws when every index the shares can select (and the
  default 0) is a category of the table with a colour.
\<close>

definition tables_cover :: "tables \<Rightarrow> real list \<Rightarrow> bool" where
  "tables_cover tb ratios \<longleftrightarrow>
     (\<forall>i < max 1 (length ratios).
        i < length (CATEGORIES tb) \<and> CATEGORIES_PROPS tb (CATEGORIES tb ! i) \<noteq> None)"

section \<open>Notions the statements use\<close>

text \<open>
  The share of the path's length covered before its \<open>j\<close>-th coordinate, by the path's own
  table of segment lengths.
\<close>

definition cumulative_ratio :: "path \<Rightarrow> nat \<Rightarrow> real" where
  "cumulative_ratio p j = sum_list (take j (distances p)) / totalDistance p"

text \<open>
  Timestamps that do not decrease along the array: every one is a finite number, and an
  earlier one is at most a later one (a comparison with \<^verbatim>\<open>NaN\<close> is false).
\<close>

definition timestamps_nondecreasing :: "waypoint list \<Rightarrow> bool" where
  "timestamps_nondecreasing wps \<longleftrightarrow>
     (\<forall>b < length wps. \<forall>a \<le> b.
        (case (timestamp (wps ! a), timestamp (wps ! b)) of
           (Some x, Some y) \<Rightarrow> x \<le> y
         | _ \<Rightarrow> False))"

text \<open>
  The invariant of the particle loop for a flow with shares \<open>rs\<close>, entered at draw \<open>k\<close>:
  after \<open>j\<close> iterations, \<open>3 * j\<close> draws were made and \<open>j\<close> trips pushed, trip \<open>i\<close> with
  the waypoints and the category of iteration \<open>i\<close>.
\<close>

definition trip_inv ::
  "tables \<Rightarrow> random \<Rightarrow> path \<Rightarrow> flow \<Rightarrow> trip_params \<Rightarrow> real list \<Rightarrow> nat \<Rightarrow>
   nat \<Rightarrow> nat \<times> trip list \<Rightarrow> bool" where
  "trip_inv tb rnd p f ps rs k j st \<longleftrightarrow>
     fst st = k + 3 * j \<and> length (snd st) = j
     \<and> (\<forall>i < j. waypoints (snd st ! i) = particle_waypoints rnd p f ps i (k + 3 * i)
          \<and> (\<exists>rgb. lookup_category tb (categoryIndex rs (rnd (k + 3 * i + 2)))
                      = Inr (foodGroup (snd st ! i), rgb)
                    \<and> color (snd st ! i) = rgb @ [255]))"

section \<open>Example inputs\<close>

text \<open>
  A link between two counties, a path of three coordinates, a table of three categories,
  and a random source whose draws are \<open>1/2\<close> (no humanization) but for every third, the
  category draw, which is \<open>0.35\<close>.
\<close>

definition example_turf :: turf where
  "example_turf =
     \<lparr> distance = (\<lambda>a b. \<bar>fst a - fst b\<bar> + \<bar>snd a - snd b\<bar>),
       bezierSpline = (\<lambda>cs. cs),
       destination = (\<lambda>c r b u. (fst c + r, snd c + b)) \<rparr>"

definition example_random :: random where
  "example_random n = (if n mod 3 = 2 then 7 / 20 else 1 / 2)"

definition example_flow :: flow where
  "example_flow =
     \<lparr> source = (0, 0), target = (10, 0), sourceId = ''21001'', targetId = ''21137'',
       routeGeometry = None, flow_value = 2,
       valuesRatiosByFoodGroup = Some [2 / 10, 5 / 10, 1] \<rparr>"


definition example_path :: path where
  "example_path =
     \<lparr> coordinates = [(0, 0), (4, 0), (10, 0)], distances = [4, 6], totalDistance = 10 \<rparr>"


definition example_tables :: tables where
  "example_tables =
     \<lparr> CATEGORIES = [''grain'', ''fruit'', ''nuts''],
       CATEGORIES_PROPS = map_of [(''grain'', ''#ff0000''), (''fruit'', ''#00ff00''),
                                  (''nuts'', ''#0000ff'')],
       hexToRgb = (\<lambda>h. if h = ''#ff0000'' then [255, 0, 0]
                        else if h = ''#00ff00'' then [0, 255, 0] else [0, 0, 255]) \<rparr>"

text \<open>A heavier flow, and a cap on the lines that is not a whole number.\<close>

definition example_heavy :: flow where
  "example_heavy = example_flow \<lparr> flow_value := 5 \<rparr>"

definition example_fractional :: curved_params where
  "example_fractional = default_curved_params \<lparr> maxLinesPerLink := 5 / 2 \<rparr>"

text \<open>The two trips of the example flow on the example path, with the default parameters.\<close>

definition example_result :: "trip list" where
  "example_result =
     [\<lparr> waypoints = [\<lparr> wp_coordinates = (0, 0), timestamp = Some 0 \<rparr>,
                      \<lparr> wp_coordinates = (4, 0), timestamp = Some (1 / 25) \<rparr>,
                      \<lparr> wp_coordinates = (10, 0), timestamp = Some (1 / 10) \<rparr>],
         color = [0, 255, 0, 255], foodGroup = ''fruit'' \<rparr>,
       \<lparr> waypoints = [\<lparr> wp_coordinates = (0, 0), timestamp = Some 50 \<rparr>,
                      \<lparr> wp_coordinates = (4, 0), timestamp = Some (1251 / 25) \<rparr>,
                      \<lparr> wp_coordinates = (10, 0), timestamp = Some (501 / 10) \<rparr>],
         color = [0, 255, 0, 255], foodGroup = ''fruit'' \<rparr>]"

text \<open>
  A random source whose speed and start draws are \<open>1/10\<close>, with the two trips it gives on
  the example path when \<^verbatim>\<open>speedKpsHumanize\<close> is 2; and a path of two equal coordinates,
  with the two trips the example source gives on it with the default parameters.
\<close>

definition example_low_random :: random where
  "example_low_random n = (if n mod 3 = 2 then 7 / 20 else 1 / 10)"

definition example_backward :: "trip list" where
  "example_backward =
     [\<lparr> waypoints = [\<lparr> wp_coordinates = (0, 0), timestamp = Some (- 20) \<rparr>,
                      \<lparr> wp_coordinates = (4, 0), timestamp = Some (- (301 / 15)) \<rparr>,
                      \<lparr> wp_coordinates = (10, 0), timestamp = Some (- (121 / 6)) \<rparr>],
         color = [0, 255, 0, 255], foodGroup = ''fruit'' \<rparr>,
      \<lparr> waypoints = [\<lparr> wp_coordinates = (0, 0), timestamp = Some 30 \<rparr>,
                      \<lparr> wp_coordinates = (4, 0), timestamp = Some (449 / 15) \<rparr>,
                      \<lparr> wp_coordinates = (10, 0), timestamp = Some (179 / 6) \<rparr>],
         color = [0, 255, 0, 255], foodGroup = ''fruit'' \<rparr>]"

definition example_still_path :: path where
  "example_still_path =
     \<lparr> coordinates = [(0, 0), (0, 0)], distances = [0], totalDistance = 0 \<rparr>"

definition example_stalled :: "trip list" where
  "example_stalled =
     [\<lparr> waypoints = [\<lparr> wp_coordinates = (0, 0), timestamp = None \<rparr>,
                      \<lparr> wp_coordinates = (0, 0), timestamp = None \<rparr>],
         color = [0, 255, 0, 255], foodGroup = ''fruit'' \<rparr>,
      \<lparr> waypoints = [\<lparr> wp_coordinates = (0, 0), timestamp = None \<rparr>,
                      \<lparr> wp_coordinates = (0, 0), timestamp = None \<rparr>],
         color = [0, 255, 0, 255], foodGroup = ''fruit'' \<rparr>]"

text \<open>A raw record with no magnitude and a backward route, in consumer mode.\<close>

definition example_closure :: "(real list, real list) closure" where
  "example_closure =
     \<lparr> flowType = ''consumer'', selectedId = ''21137'', selectedCentroid = (10, 0),
       getStats = (\<lambda>byGroup byCrop. (sum_list byCrop, Some byGroup)),
       decode = (\<lambda>s. [(1, 2), (3, 4), (5, 6)]) \<rparr>"

definition example_record :: "(real list, real list) raw_county" where
  "example_record =
     \<lparr> county_id = ''21001'', county_centroid = (0, 0), route_geometry = Some ''_p~iF'',
       route_direction = Some ''backward'', flowsByCrop = [], flowsByCropGroup = [] \<rparr>"

section \<open>The normalizer: theorems\<close>

text \<open>
  C4. The value of a flow made from a raw record is \<open>max 1 (total / 200000000)\<close>, where
  \<open>total\<close> is the magnitude \<^verbatim>\<open>getStats\<close> gives for the record. It is never less than 1,
  and a record whose magnitude is zero (a record with no magnitude entries sums to zero)
  has value 1.
\<close>

theorem toFlow_value:
  "flow_value (toFlow c r)
     = max 1 (fst (getStats c (flowsByCropGroup r) (flowsByCrop r)) / 200000000)
   \<and> 1 \<le> flow_value (toFlow c r)
   \<and> (fst (getStats c (flowsByCropGroup r) (flowsByCrop r)) = 0
        \<longrightarrow> flow_value (toFlow c r) = 1)"
  by (simp add: toFlow_def Let_def split: prod.splits)

theorem toFlow_value_witness:
  "fst (getStats example_closure (flowsByCropGroup example_record) (flowsByCrop example_record))
     = 0
   \<and> flow_value (toFlow example_closure example_record) = 1"
proof -
  have "fst (getStats example_closure (flowsByCropGroup example_record)
               (flowsByCrop example_record)) = 0"
    by (simp add: example_closure_def example_record_def)
  then show ?thesis using toFlow_value [of example_closure example_record] by simp
qed

text \<open>
  C5. For a raw record with an encoded route polyline (a non-empty string), the route
  geometry of the flow is the decoded sequence with each pair swapped, in reversed order
  when the route direction is \<^verbatim>\<open>backward\<close> (so the last decoded coordinate comes first and
  the first comes last) and in the decoded order otherwise.
\<close>

theorem toFlow_route_direction:
  assumes "route_geometry r = Some s" and "s \<noteq> []"
  shows "routeGeometry (toFlow c r)
           = Some (if route_direction r = Some ''backward''
                   then rev (map swap_pair (decode c s))
                   else map swap_pair (decode c s))
       \<and> (route_direction r = Some ''backward'' \<and> decode c s \<noteq> []
            \<longrightarrow> map_option hd (routeGeometry (toFlow c r)) = Some (swap_pair (last (decode c s)))
              \<and> map_option last (routeGeometry (toFlow c r)) = Some (swap_pair (hd (decode c s))))"
  using assms
  by (simp add: toFlow_def Let_def truthy_string_def hd_rev last_rev last_map hd_map
      split: prod.splits)

theorem toFlow_route_direction_witness:
  "route_geometry example_record = Some ''_p~iF'' \<and> ''_p~iF'' \<noteq> []
   \<and> route_direction example_record = Some ''backward''
   \<and> decode example_closure ''_p~iF'' = [(1, 2), (3, 4), (5, 6)]
   \<and> routeGeometry (toFlow example_closure example_record) = Some [(6, 5), (4, 3), (2, 1)]"
proof -
  have g: "route_geometry example_record = Some ''_p~iF''" and n: "''_p~iF'' \<noteq> []"
    by (simp_all add: example_record_def)
  have d: "route_direction example_record = Some ''backward''"
    and e: "decode example_closure ''_p~iF'' = [(1, 2), (3, 4), (5, 6)]"
    by (simp_all add: example_record_def example_closure_def)
  show ?thesis
    using toFlow_route_direction [OF g n, of example_closure] g d e
    by (simp add: swap_pair_def)
qed

section \<open>Loops\<close>

text \<open>
  A loop with the bound \<open>bound\<close> entered at \<open>i\<close> leaves at the index
  \<open>max i (nat \<lceil>bound\<rceil>)\<close>; what holds of index and state on entry and is kept by the body
  holds on exit.
\<close>

lemma upper_index: "real i < bound \<Longrightarrow> max (Suc i) (nat \<lceil>bound\<rceil>) = max i (nat \<lceil>bound\<rceil>)"
  by (simp add: max_def) linarith

lemma upper_index_done: "\<not> real i < bound \<Longrightarrow> max i (nat \<lceil>bound\<rceil>) = i"
  by (simp add: max_def) linarith

lemma for_loop_inv:
  assumes "I i s"
    and "\<And>j t. I j t \<Longrightarrow> real j < bound \<Longrightarrow> I (Suc j) (body j t)"
  shows "I (max i (nat \<lceil>bound\<rceil>)) (for_loop bound body i s)"
  using assms
proof (induction bound body i s rule: for_loop.induct)
  case (1 bound body i s)
  show ?case
  proof (cases "real i < bound")
    case True
    then have "I (Suc i) (body i s)" using 1 by blast
    then have "I (max (Suc i) (nat \<lceil>bound\<rceil>)) (for_loop bound body (Suc i) (body i s))"
      using 1 True by blast
    then show ?thesis using True by (simp add: for_loop.simps [of bound body i] upper_index)
  next
    case False
    then show ?thesis using 1 by (simp add: for_loop.simps [of bound body i] upper_index_done)
  qed
qed

lemma for_loop_err_total:
  assumes "I i s"
    and "\<And>j t. I j t \<Longrightarrow> real j < bound \<Longrightarrow> \<exists>t'. body j t = Inr t' \<and> I (Suc j) t'"
  shows "\<exists>s'. for_loop_err bound body i s = Inr s' \<and> I (max i (nat \<lceil>bound\<rceil>)) s'"
  using assms
proof (induction bound body i s rule: for_loop_err.induct)
  case (1 bound body i s)
  show ?case
  proof (cases "real i < bound")
    case True
    then obtain t' where t': "body i s = Inr t'" "I (Suc i) t'" using 1 by blast
    then have "\<exists>s'. for_loop_err bound body (Suc i) t' = Inr s' \<and> I (max (Suc i) (nat \<lceil>bound\<rceil>)) s'"
      using 1 True by blast
    then show ?thesis using True t' by (simp add: for_loop_err.simps [of bound body i] upper_index)
  next
    case False
    then show ?thesis using 1 by (simp add: for_loop_err.simps [of bound body i] upper_index_done)
  qed
qed

lemma for_loop_err_inv:
  assumes "for_loop_err bound body i s = Inr s'" and "I i s"
    and "\<And>j t t'. I j t \<Longrightarrow> real j < bound \<Longrightarrow> body j t = Inr t' \<Longrightarrow> I (Suc j) t'"
  shows "I (max i (nat \<lceil>bound\<rceil>)) s'"
  using assms
proof (induction bound body i s rule: for_loop_err.induct)
  case (1 bound body i s)
  show ?case
  proof (cases "real i < bound")
    case True
    then obtain t' where t': "body i s = Inr t'" "for_loop_err bound body (Suc i) t' = Inr s'"
      using "1.prems"(1) by (simp add: for_loop_err.simps [of bound body i] split: sum.splits)
    then have "I (Suc i) t'" using 1 True by blast
    then have "I (max (Suc i) (nat \<lceil>bound\<rceil>)) s'"
      using 1 True t' by blast
    then show ?thesis using True by (simp add: upper_index)
  next
    case False
    then show ?thesis using 1 by (simp add: for_loop_err.simps [of bound body i] upper_index_done)
  qed
qed

section \<open>The path synthesizer: theorems\<close>

lemma curved_line_length:
  "length (snd (curved_line T rnd link ps mn mx i (k, paths))) = Suc (length paths)"
  by (simp add: curved_line_def Let_def split: prod.splits)

lemma getCurvedPaths_length:
  "length (snd (getCurvedPaths T rnd k link ps)) = nat \<lceil>numLinesPerLink link ps\<rceil>"
proof -
  define body where "body = curved_line T rnd link ps
      (round (distance T (source link) (target link) / 1000 * minWaypointsPer1000km ps))
      (round (distance T (source link) (target link) / 1000 * maxWaypointsPer1000km ps))"
  have "length (snd (for_loop (numLinesPerLink link ps) body 0 (k, [])))
          = max 0 (nat \<lceil>numLinesPerLink link ps\<rceil>)"
  proof (rule for_loop_inv [where I = "\<lambda>j st. length (snd st) = j"])
    show "length (snd (k, [] :: path list)) = 0" by simp
  next
    fix j :: nat and t :: "nat \<times> path list"
    assume "length (snd t) = j"
    then show "length (snd (body j t)) = Suc j"
      by (cases t) (simp add: body_def curved_line_length)
  qed
  then show ?thesis by (simp add: getCurvedPaths_def Let_def body_def)
qed

lemma numLines_whole:
  assumes "maxLinesPerLink ps \<in> \<int>"
  shows "numLinesPerLink link ps \<in> \<int>"
  using assms by (simp add: numLinesPerLink_def min_def)

text \<open>
  C1, as stated, fails where \<^verbatim>\<open>maxLinesPerLink\<close> is not a whole number: for value 5,
  multiplicator 1 and at most 2.5 lines, \<open>K\<close> is 2.5 and the loop runs for the indices 0,
  1 and 2, so 3 paths are returned, more than \<^verbatim>\<open>maxLinesPerLink\<close>.
\<close>

theorem getCurvedPaths_count_counterexample:
  "sourceId example_heavy \<noteq> targetId example_heavy
   \<and> min (real_of_int (round (flow_value example_heavy
                                 * linesPerLinkMultiplicator example_fractional)))
          (maxLinesPerLink example_fractional) = 5 / 2
   \<and> length (snd (curvedPathsOf example_turf example_random 0 example_fractional
                    example_heavy)) = 3
   \<and> real (length (snd (curvedPathsOf example_turf example_random 0 example_fractional
                          example_heavy))) \<noteq> 5 / 2
   \<and> \<not> real (length (snd (curvedPathsOf example_turf example_random 0 example_fractional
                             example_heavy)))
         \<le> maxLinesPerLink example_fractional"
  by (simp add: curvedPathsOf_def getCurvedPaths_length numLinesPerLink_def
      example_heavy_def example_flow_def example_fractional_def default_curved_params_def)

text \<open>
  C1, amended. For a flow whose source and target ids differ, the curved mode calls
  \<^verbatim>\<open>getCurvedPaths\<close>, and with \<open>K = min (round (value * linesPerLinkMultiplicator))
  maxLinesPerLink\<close> the number of paths returned is the ceiling of \<open>K\<close> when \<open>K\<close> is
  positive and 0 otherwise. When \<^verbatim>\<open>maxLinesPerLink\<close> is a whole number this is \<open>K\<close> itself
  when \<open>K\<close> is not negative and 0 otherwise, and it is at most \<^verbatim>\<open>maxLinesPerLink\<close> when
  that is not negative as well. Value 2 with multiplicator 1 and at most 30 lines gives
  2 paths.
\<close>

theorem getCurvedPaths_count:
  assumes "sourceId l \<noteq> targetId l"
  shows "curvedPathsOf T rnd k ps l = getCurvedPaths T rnd k l ps
       \<and> (let K = min (real_of_int (round (flow_value l * linesPerLinkMultiplicator ps)))
                      (maxLinesPerLink ps);
              n = length (snd (getCurvedPaths T rnd k l ps))
          in n = nat \<lceil>K\<rceil>
             \<and> (maxLinesPerLink ps \<in> \<int> \<longrightarrow> real n = (if 0 \<le> K then K else 0))
             \<and> (maxLinesPerLink ps \<in> \<int> \<and> 0 \<le> maxLinesPerLink ps
                  \<longrightarrow> real n \<le> maxLinesPerLink ps)
             \<and> (flow_value l = 2 \<and> linesPerLinkMultiplicator ps = 1 \<and> maxLinesPerLink ps = 30
                  \<longrightarrow> n = 2))"
proof -
  define n where "n = length (snd (getCurvedPaths T rnd k l ps))"
  have len: "n = nat \<lceil>numLinesPerLink l ps\<rceil>"
    by (simp add: n_def getCurvedPaths_length)
  have a: "maxLinesPerLink ps \<in> \<int>
           \<longrightarrow> real n = (if 0 \<le> numLinesPerLink l ps then numLinesPerLink l ps else 0)"
  proof
    assume "maxLinesPerLink ps \<in> \<int>"
    then have "numLinesPerLink l ps \<in> \<int>" by (rule numLines_whole)
    then obtain z :: int where z: "numLinesPerLink l ps = real_of_int z"
      by (auto elim: Ints_cases)
    then show "real n = (if 0 \<le> numLinesPerLink l ps then numLinesPerLink l ps else 0)"
      using len by simp
  qed
  have b: "maxLinesPerLink ps \<in> \<int> \<and> 0 \<le> maxLinesPerLink ps
           \<longrightarrow> real n \<le> maxLinesPerLink ps"
    using a by (simp add: numLinesPerLink_def)
  have c: "flow_value l = 2 \<and> linesPerLinkMultiplicator ps = 1 \<and> maxLinesPerLink ps = 30
              \<longrightarrow> n = 2"
    by (simp add: n_def getCurvedPaths_length numLinesPerLink_def)
  have d: "curvedPathsOf T rnd k ps l = getCurvedPaths T rnd k l ps"
    using assms(1) by (simp add: curvedPathsOf_def)
  show ?thesis
    unfolding Let_def n_def [symmetric] using len a b c d by (simp add: numLinesPerLink_def)
qed

theorem getCurvedPaths_count_witness:
  "sourceId example_flow \<noteq> targetId example_flow
   \<and> maxLinesPerLink default_curved_params \<in> \<int>
   \<and> 0 \<le> maxLinesPerLink default_curved_params
   \<and> flow_value example_flow = 2 \<and> linesPerLinkMultiplicator default_curved_params = 1
   \<and> maxLinesPerLink default_curved_params = 30
   \<and> length (snd (getCurvedPaths example_turf example_random 0 example_flow
                    default_curved_params)) = 2"
proof -
  have i: "sourceId example_flow \<noteq> targetId example_flow"
    and v: "flow_value example_flow = 2"
    by (simp_all add: example_flow_def)
  have w: "maxLinesPerLink default_curved_params \<in> \<int>"
      "0 \<le> maxLinesPerLink default_curved_params"
      "linesPerLinkMultiplicator default_curved_params = 1"
      "maxLinesPerLink default_curved_params = 30"
    by (simp_all add: default_curved_params_def)
  show ?thesis
    using getCurvedPaths_count [OF i, of example_turf example_random 0 default_curved_params]
      i v w
    by (simp add: Let_def)
qed





text \<open>
  C3, evaluated. On the link from \<open>(0, 0)\<close> to \<open>(10, 0)\<close>, with the default parameters,
  seven waypoints and the draw \<open>1/2\<close>, the waypoint of index 0 is \<open>(1.55, 0)\<close> and that of
  index 1 is \<open>(2.2, 0)\<close>: the midpoints \<open>(1.25, 0)\<close> and \<open>(2.5, 0)\<close> moved by \<open>0.3\<close>
  forward and backward along the link, not to either side of it. With deviations between
  \<open>0.5\<close> and \<open>0.6\<close> the same draw gives the deviation \<open>0.55\<close> at index 0 and \<open>0.45\<close>
  at index 1: the same sign at both, and at index 1 a magnitude under the minimum.
\<close>

theorem curved_waypoint_along_link:
  "curved_waypoint example_flow default_curved_params 7 0 (1 / 2) = (31 / 20, 0)
   \<and> curved_waypoint example_flow default_curved_params 7 1 (1 / 2) = (11 / 5, 0)
   \<and> deviation (default_curved_params
                  \<lparr> minDeviationDegrees := 5 / 10, maxDeviationDegrees := 6 / 10 \<rparr>) 0 (1 / 2)
       = 11 / 20
   \<and> deviation (default_curved_params
                  \<lparr> minDeviationDegrees := 5 / 10, maxDeviationDegrees := 6 / 10 \<rparr>) 1 (1 / 2)
       = 9 / 20"
  by (simp add: curved_waypoint_def deviation_def atan2_def example_flow_def
      default_curved_params_def Let_def)

section \<open>The trip simulator: lemmas\<close>

text \<open>The category reduction finds the first share above the draw.\<close>

lemma category_reduce_Some: "category_reduce r rs i (Some a) = Some a"
  by (induction rs arbitrary: i) auto

lemma category_reduce_None:
  "category_reduce r rs i None =
     (let n = length (takeWhile (\<lambda>x. \<not> r < x) rs)
      in if n < length rs then Some (i + n) else None)"
  by (induction rs arbitrary: i) (auto simp: category_reduce_Some Let_def)

lemma categoryIndex_takeWhile:
  "categoryIndex rs r =
     (let n = length (takeWhile (\<lambda>x. \<not> r < x) rs) in if n < length rs then n else 0)"
  by (simp add: categoryIndex_def category_reduce_None Let_def)

lemma takeWhile_holds:
  assumes "j < length (takeWhile P xs)"
  shows "P (xs ! j)"
proof -
  have "takeWhile P xs ! j \<in> set (takeWhile P xs)" using assms by (rule nth_mem)
  then have "P (takeWhile P xs ! j)" by (blast dest: set_takeWhileD)
  then show ?thesis using assms by (simp add: takeWhile_nth)
qed

lemma categoryIndex_first:
  assumes "j < length rs" and "r < rs ! j"
  shows "categoryIndex rs r < length rs \<and> r < rs ! categoryIndex rs r
         \<and> categoryIndex rs r \<le> j \<and> (\<forall>m < categoryIndex rs r. \<not> r < rs ! m)"
proof -
  let ?n = "length (takeWhile (\<lambda>x. \<not> r < x) rs)"
  have n: "?n \<le> j"
  proof (rule ccontr)
    assume "\<not> ?n \<le> j"
    then have "j < ?n" by simp
    then have "\<not> r < rs ! j" by (rule takeWhile_holds)
    then show False using assms by simp
  qed
  then have lt: "?n < length rs" using assms by simp
  then have idx: "categoryIndex rs r = ?n" by (simp add: categoryIndex_takeWhile)
  have "\<not> \<not> r < rs ! ?n" using lt by (rule nth_length_takeWhile)
  moreover have "\<forall>m < ?n. \<not> r < rs ! m"
    using takeWhile_holds [of _ "\<lambda>x. \<not> r < x" rs] by blast
  ultimately show ?thesis using idx lt n by simp
qed

lemma categoryIndex_none:
  assumes "\<forall>j < length rs. \<not> r < rs ! j"
  shows "categoryIndex rs r = 0"
proof -
  let ?n = "length (takeWhile (\<lambda>x. \<not> r < x) rs)"
  have "\<not> ?n < length rs"
  proof
    assume lt: "?n < length rs"
    then have "\<not> \<not> r < rs ! ?n" by (rule nth_length_takeWhile)
    then show False using assms lt by simp
  qed
  then show ?thesis by (simp add: categoryIndex_takeWhile)
qed

lemma categoryIndex_bound: "categoryIndex rs r < max 1 (length rs)"
  by (auto simp: categoryIndex_takeWhile Let_def max_def)

lemma lookup_category_cover:
  assumes "tables_cover tb rs"
  shows "\<exists>c. CATEGORIES_PROPS tb (CATEGORIES tb ! categoryIndex rs r) = Some c
            \<and> lookup_category tb (categoryIndex rs r)
                = Inr (CATEGORIES tb ! categoryIndex rs r, hexToRgb tb c)"
  using assms categoryIndex_bound [of rs r]
  by (auto simp: tables_cover_def lookup_category_def Let_def)

lemma lookup_category_Inr:
  assumes "lookup_category tb n = Inr (cat, rgb)"
  shows "n < length (CATEGORIES tb) \<and> cat = CATEGORIES tb ! n
         \<and> (\<exists>c. CATEGORIES_PROPS tb cat = Some c \<and> rgb = hexToRgb tb c)"
  using assms by (auto simp: lookup_category_def Let_def split: if_splits option.splits)

text \<open>The particle loop, step by step.\<close>

lemma particle_None:
  "valuesRatiosByFoodGroup f = None \<Longrightarrow> particle tb rnd p f ps i (k, ts) = Inr (k + 2, ts)"
  by (simp add: particle_def Let_def)

lemma particle_Some:
  assumes "valuesRatiosByFoodGroup f = Some rs"
  shows "particle tb rnd p f ps i (k, ts) =
     (case lookup_category tb (categoryIndex rs (rnd (k + 2))) of
        Inl e \<Rightarrow> Inl e
      | Inr (cat, rgb) \<Rightarrow>
          Inr (k + 3, ts @ [\<lparr> waypoints = particle_waypoints rnd p f ps i k,
                               color = rgb @ [255], foodGroup = cat \<rparr>]))"
  using assms by (simp add: particle_def Let_def)

lemma trip_inv_step:
  assumes "valuesRatiosByFoodGroup f = Some rs" and "trip_inv tb rnd p f ps rs k j t"
    and "particle tb rnd p f ps j t = Inr t'"
  shows "trip_inv tb rnd p f ps rs k (Suc j) t'"
proof -
  obtain kk ts where t: "t = (kk, ts)" by (cases t)
  have kk: "kk = k + 3 * j" and len: "length ts = j" using assms(2) t by (simp_all add: trip_inv_def)
  obtain cat rgb where
    look: "lookup_category tb (categoryIndex rs (rnd (kk + 2))) = Inr (cat, rgb)"
    and t': "t' = (kk + 3, ts @ [\<lparr> waypoints = particle_waypoints rnd p f ps j kk,
                               color = rgb @ [255], foodGroup = cat \<rparr>])"
    using assms(3) unfolding t particle_Some [OF assms(1)]
    by (auto split: sum.splits prod.splits)
  show ?thesis
    unfolding trip_inv_def t'
  proof (intro conjI allI impI)
    fix i assume "i < Suc j"
    then consider "i < j" | "i = j" by linarith
    then show "waypoints (snd (kk + 3, ts @ [\<lparr> waypoints = particle_waypoints rnd p f ps j kk,
                               color = rgb @ [255], foodGroup = cat \<rparr>]) ! i)
               = particle_waypoints rnd p f ps i (k + 3 * i)"
      using assms(2) len kk t by cases (simp_all add: trip_inv_def nth_append)
  next
    fix i assume "i < Suc j"
    then consider "i < j" | "i = j" by linarith
    then show "\<exists>rgb'. lookup_category tb (categoryIndex rs (rnd (k + 3 * i + 2)))
                 = Inr (foodGroup (snd (kk + 3, ts @ [\<lparr> waypoints = particle_waypoints rnd p f ps j kk,
                               color = rgb @ [255], foodGroup = cat \<rparr>]) ! i), rgb')
               \<and> color (snd (kk + 3, ts @ [\<lparr> waypoints = particle_waypoints rnd p f ps j kk,
                               color = rgb @ [255], foodGroup = cat \<rparr>]) ! i) = rgb' @ [255]"
      using assms(2) len kk t look by cases (simp_all add: trip_inv_def nth_append)
  qed (simp_all add: kk len)
qed

lemma getPathTrips_Inr:
  assumes "getPathTrips tb rnd k p f ps = Inr st" and "valuesRatiosByFoodGroup f = Some rs"
  shows "trip_inv tb rnd p f ps rs k (nat \<lceil>numParticles ps f\<rceil>) st"
proof -
  have "trip_inv tb rnd p f ps rs k (max 0 (nat \<lceil>numParticles ps f\<rceil>)) st"
  proof (rule for_loop_err_inv [where I = "trip_inv tb rnd p f ps rs k"])
    show "for_loop_err (numParticles ps f) (particle tb rnd p f ps) 0 (k, []) = Inr st"
      using assms(1) by (simp add: getPathTrips_def)
    show "trip_inv tb rnd p f ps rs k 0 (k, [])" by (simp add: trip_inv_def)
  qed (rule trip_inv_step [OF assms(2)])
  then show ?thesis by simp
qed

lemma getPathTrips_returns:
  assumes "valuesRatiosByFoodGroup f = Some rs" and "tables_cover tb rs"
  shows "\<exists>st. getPathTrips tb rnd k p f ps = Inr st"
proof -
  have "\<exists>s'. for_loop_err (numParticles ps f) (particle tb rnd p f ps) 0 (k, []) = Inr s'
          \<and> True"
  proof (rule for_loop_err_total [where I = "\<lambda>j t. True"])
    fix j and t :: "nat \<times> trip list"
    obtain kk ts where t: "t = (kk, ts)" by (cases t)
    obtain c where "lookup_category tb (categoryIndex rs (rnd (kk + 2)))
                = Inr (CATEGORIES tb ! categoryIndex rs (rnd (kk + 2)), hexToRgb tb c)"
      using lookup_category_cover [OF assms(2)] by blast
    then show "\<exists>t'. particle tb rnd p f ps j t = Inr t' \<and> True"
      unfolding t particle_Some [OF assms(1)] by simp
  qed simp
  then show ?thesis by (simp add: getPathTrips_def)
qed

lemma getPathTrips_absent:
  assumes "valuesRatiosByFoodGroup f = None"
  shows "\<exists>k'. getPathTrips tb rnd k p f ps = Inr (k', [])"
proof -
  have "\<exists>s'. for_loop_err (numParticles ps f) (particle tb rnd p f ps) 0 (k, []) = Inr s'
          \<and> snd s' = []"
  proof (rule for_loop_err_total [where I = "\<lambda>j t. snd t = []"])
    fix j and t :: "nat \<times> trip list"
    assume "snd t = []"
    then show "\<exists>t'. particle tb rnd p f ps j t = Inr t' \<and> snd t' = []"
      by (cases t) (simp add: particle_None [OF assms])
  qed simp
  then obtain s' where "getPathTrips tb rnd k p f ps = Inr s'" "snd s' = []"
    by (auto simp: getPathTrips_def)
  then show ?thesis by (cases s') simp
qed

text \<open>The waypoint reduction, in closed form.\<close>

lemma waypoints_reduce_closed:
  assumes "totalDistance p \<noteq> 0" and "idx + length cs \<le> Suc (length (distances p))"
  shows "snd (waypoints_reduce p tS (Some delta) cs idx
                (Some (sum_list (take idx (distances p))), wps))
         = wps @ map (\<lambda>(j, c). \<lparr> wp_coordinates = c,
                                  timestamp = Some (tS + cumulative_ratio p j * delta) \<rparr>)
                     (enumerate idx cs)"
  using assms(2)
proof (induction cs arbitrary: idx wps)
  case Nil
  then show ?case by simp
next
  case (Cons c cs)
  let ?w = "\<lparr> wp_coordinates = c, timestamp = Some (tS + cumulative_ratio p idx * delta) \<rparr>"
  have step: "waypoints_reduce p tS (Some delta) (c # cs) idx
                (Some (sum_list (take idx (distances p))), wps)
              = waypoints_reduce p tS (Some delta) cs (Suc idx)
                  (jadd (Some (sum_list (take idx (distances p)))) (nth_number (distances p) idx),
                   wps @ [?w])"
    using assms(1) by (simp add: Let_def jdiv_def jadd_def jmul_def cumulative_ratio_def)
  show ?case
  proof (cases cs)
    case Nil
    then show ?thesis unfolding step by simp
  next
    case (Cons c' cs')
    then have lt: "idx < length (distances p)" using Cons.prems by simp
    then have acc: "jadd (Some (sum_list (take idx (distances p)))) (nth_number (distances p) idx)
                    = Some (sum_list (take (Suc idx) (distances p)))"
      by (simp add: jadd_def nth_number_def take_Suc_conv_app_nth)
    have "Suc idx + length cs \<le> Suc (length (distances p))" using Cons.prems by simp
    from Cons.IH [OF this, of "wps @ [?w]"] show ?thesis
      unfolding step acc by simp
  qed
qed

lemma map_enumerate_upt:
  "map (\<lambda>(j, c). F j c) (enumerate 0 cs) = map (\<lambda>j. F j (cs ! j)) [0..<length cs]"
  by (rule nth_equalityI) (simp_all add: nth_enumerate_eq)

lemma sum_take_mono:
  assumes "\<forall>d \<in> set ds. (0::real) \<le> d" and "a \<le> b"
  shows "sum_list (take a ds) \<le> sum_list (take b ds)"
proof -
  have "take b ds = take a ds @ take (b - a) (drop a ds)"
    using assms(2) by (metis le_add_diff_inverse take_add)
  moreover have "0 \<le> sum_list (take (b - a) (drop a ds))"
    using assms(1) by (intro sum_list_nonneg) (auto dest: in_set_takeD in_set_dropD)
  ultimately show ?thesis by simp
qed

lemma humanizedSpeedKps_pos:
  assumes "0 \<le> r" and "r < 1" and "0 < speedKps ps"
    and "0 \<le> speedKpsHumanize ps" and "speedKpsHumanize ps < 1"
  shows "0 < humanizedSpeedKps ps r"
proof -
  let ?h = "speedKpsHumanize ps"
  have "- 1 * ?h \<le> (2 * r - 1) * ?h"
    using assms(1,4) by (intro mult_right_mono) simp_all
  then have "0 < 1 + (2 * r - 1) * ?h" using assms(5) by simp
  then have "0 < speedKps ps * (1 + (2 * r - 1) * ?h)"
    using assms(3) by (rule mult_pos_pos [rotated])
  moreover have "humanizedSpeedKps ps r = speedKps ps * (1 + (2 * r - 1) * ?h)"
    by (simp add: humanizedSpeedKps_def algebra_simps)
  ultimately show ?thesis by simp
qed

lemma particle_waypoints_closed:
  assumes "totalDistance p \<noteq> 0" and "humanizedSpeedKps ps (rnd k) \<noteq> 0"
    and "length (coordinates p) \<le> Suc (length (distances p))"
  shows "particle_waypoints rnd p f ps i k
         = map (\<lambda>j. \<lparr> wp_coordinates = coordinates p ! j,
                       timestamp = Some (timestampStart ps f i (rnd (k + 1))
                         + cumulative_ratio p j
                           * (totalDistance p / humanizedSpeedKps ps (rnd k))) \<rparr>)
               [0..<length (coordinates p)]"
proof -
  let ?tS = "timestampStart ps f i (rnd (k + 1))"
  let ?v = "humanizedSpeedKps ps (rnd k)"
  have e: "timestampEnd p ?tS ?v = Some (?tS + totalDistance p / ?v)"
    using assms(2) by (simp add: timestampEnd_def baseDuration_def jadd_def jdiv_def)
  have d: "jsub (timestampEnd p ?tS ?v) (Some ?tS) = Some (totalDistance p / ?v)"
    unfolding e by (simp add: jsub_def)
  have "0 + length (coordinates p) \<le> Suc (length (distances p))" using assms(3) by simp
  from waypoints_reduce_closed [OF assms(1) this, of ?tS "totalDistance p / ?v" "[]"]
  have "snd (waypoints_reduce p ?tS (Some (totalDistance p / ?v)) (coordinates p) 0 (Some 0, []))
        = map (\<lambda>j. \<lparr> wp_coordinates = coordinates p ! j,
                       timestamp = Some (?tS + cumulative_ratio p j * (totalDistance p / ?v)) \<rparr>)
               [0..<length (coordinates p)]"
    by (simp add: map_enumerate_upt)
  moreover have "particle_waypoints rnd p f ps i k
        = snd (waypoints_reduce p ?tS (Some (totalDistance p / ?v)) (coordinates p) 0 (Some 0, []))"
    unfolding particle_waypoints_def Let_def d ..
  ultimately show ?thesis by simp
qed

lemma cumulative_ratio_mono:
  assumes "0 < totalDistance p" and "\<forall>d \<in> set (distances p). 0 \<le> d" and "a \<le> b"
  shows "cumulative_ratio p a \<le> cumulative_ratio p b"
  unfolding cumulative_ratio_def
  using sum_take_mono [OF assms(2,3)] assms(1) by (simp add: divide_right_mono)



lemma example_unit: "in_unit example_random"
  by (simp add: in_unit_def example_random_def)

lemma example_cover: "tables_cover example_tables [2 / 10, 5 / 10, 1]"
  by (simp add: tables_cover_def example_tables_def less_Suc_eq)

lemma example_path_made:
  "getDistances example_turf (coordinates example_path)
   = (distances example_path, totalDistance example_path)"
  by (simp add: getDistances_def example_turf_def example_path_def)

lemma example_shares: "valuesRatiosByFoodGroup example_flow = Some [2 / 10, 5 / 10, 1]"
  by (simp add: example_flow_def)

lemma example_trips:
  "getPathTrips example_tables example_random 0 example_path example_flow default_trip_params
   = Inr (6, example_result)"
  by (simp add: getPathTrips_def for_loop_err.simps particle_def particle_waypoints_def
      numParticles_def interval_def humanizedSpeedKps_def timestampStart_def timestampEnd_def
      baseDuration_def jdiv_def jadd_def jsub_def jmul_def nth_number_def
      lookup_category_def categoryIndex_def example_result_def
      example_tables_def example_random_def example_path_def example_flow_def
      default_trip_params_def Let_def)

lemma example_second: "1 < length example_result"
  by (simp add: example_result_def)

section \<open>The trip simulator: theorems\<close>

lemma getPathTrips_Inr_length:
  assumes "getPathTrips tb rnd k p f ps = Inr (k', trips)"
  shows "length trips \<le> nat \<lceil>numParticles ps f\<rceil>
         \<and> (valuesRatiosByFoodGroup f \<noteq> None \<longrightarrow> length trips = nat \<lceil>numParticles ps f\<rceil>)"
proof (cases "valuesRatiosByFoodGroup f")
  case None
  then have "trips = []" using getPathTrips_absent [of f tb rnd k p ps] assms by auto
  then show ?thesis using None by simp
next
  case (Some rs)
  then show ?thesis using getPathTrips_Inr [OF assms Some] by (simp add: trip_inv_def)
qed

text \<open>
  C10. For every path and every flow with category shares, the number of trips
  \<^verbatim>\<open>getPathTrips\<close> returns is the ceiling of \<open>min (value * numParticlesMultiplicator)
  maxParticles\<close>: the bound of the loop is not rounded, so a fractional bound runs the loop
  a ceiling number of times (and a bound below zero not at all). The call does return when
  the category table covers the shares, so that no lookup throws.
\<close>

theorem getPathTrips_count:
  assumes "valuesRatiosByFoodGroup f = Some rs"
  shows "(\<forall>k' trips. getPathTrips tb rnd k p f ps = Inr (k', trips)
            \<longrightarrow> length trips
                  = nat \<lceil>min (flow_value f * numParticlesMultiplicator ps) (maxParticles ps)\<rceil>
                \<and> (0 \<le> min (flow_value f * numParticlesMultiplicator ps) (maxParticles ps)
                     \<longrightarrow> int (length trips)
                         = \<lceil>min (flow_value f * numParticlesMultiplicator ps)
                                (maxParticles ps)\<rceil>))
         \<and> (tables_cover tb rs
              \<longrightarrow> (\<exists>k' trips. getPathTrips tb rnd k p f ps = Inr (k', trips)))"
proof (intro conjI allI impI)
  fix k' trips
  assume r: "getPathTrips tb rnd k p f ps = Inr (k', trips)"
  show n: "length trips
        = nat \<lceil>min (flow_value f * numParticlesMultiplicator ps) (maxParticles ps)\<rceil>"
    using getPathTrips_Inr_length [OF r] assms by (simp add: numParticles_def)
  assume "0 \<le> min (flow_value f * numParticlesMultiplicator ps) (maxParticles ps)"
  then show "int (length trips)
        = \<lceil>min (flow_value f * numParticlesMultiplicator ps) (maxParticles ps)\<rceil>"
    using n by simp
next
  assume "tables_cover tb rs"
  then obtain st where "getPathTrips tb rnd k p f ps = Inr st"
    using getPathTrips_returns [OF assms] by blast
  then show "\<exists>k' trips. getPathTrips tb rnd k p f ps = Inr (k', trips)"
    by (cases st) auto
qed

theorem getPathTrips_count_witness:
  "valuesRatiosByFoodGroup example_flow = Some [2 / 10, 5 / 10, 1]
   \<and> tables_cover example_tables [2 / 10, 5 / 10, 1]
   \<and> min (flow_value example_flow
           * numParticlesMultiplicator
               (default_trip_params \<lparr> numParticlesMultiplicator := 3 / 4 \<rparr>))
          (maxParticles (default_trip_params \<lparr> numParticlesMultiplicator := 3 / 4 \<rparr>)) = 3 / 2
   \<and> (\<exists>k' trips. getPathTrips example_tables example_random 0 example_path example_flow
                      (default_trip_params \<lparr> numParticlesMultiplicator := 3 / 4 \<rparr>)
                    = Inr (k', trips)
                  \<and> length trips = 2)"
proof -
  have v: "min (flow_value example_flow
           * numParticlesMultiplicator
               (default_trip_params \<lparr> numParticlesMultiplicator := 3 / 4 \<rparr>))
          (maxParticles (default_trip_params \<lparr> numParticlesMultiplicator := 3 / 4 \<rparr>)) = 3 / 2"
    by (simp add: example_flow_def default_trip_params_def)
  have c: "nat \<lceil>3 / 2 :: real\<rceil> = 2" by simp
  note t = getPathTrips_count [OF example_shares, of example_tables example_random 0
      example_path "default_trip_params \<lparr> numParticlesMultiplicator := 3 / 4 \<rparr>",
      unfolded v c]
  then obtain k' trips where
    r: "getPathTrips example_tables example_random 0 example_path example_flow
          (default_trip_params \<lparr> numParticlesMultiplicator := 3 / 4 \<rparr>) = Inr (k', trips)"
    using example_cover by blast
  then have "length trips = 2" using t by blast
  then show ?thesis using r example_shares example_cover v by blast
qed

text \<open>
  C7. For a flow without category shares \<^verbatim>\<open>getPathTrips\<close> returns the empty sequence:
  every iteration is skipped, nothing is thrown. With a whole, non-negative
  \<^verbatim>\<open>maxParticles\<close>, every sequence it returns has at most \<^verbatim>\<open>maxParticles\<close> trips, at
  most the ceiling of \<open>numParticles = min (value * numParticlesMultiplicator)
  maxParticles\<close>. The call does return when the category table covers the flow's shares.
\<close>

theorem getPathTrips_bounded:
  "(valuesRatiosByFoodGroup f = None \<longrightarrow> (\<exists>k'. getPathTrips tb rnd k p f ps = Inr (k', [])))
   \<and> (\<forall>M k' trips. maxParticles ps = real M \<and> getPathTrips tb rnd k p f ps = Inr (k', trips)
        \<longrightarrow> real (length trips) \<le> maxParticles ps
            \<and> length trips
                \<le> nat \<lceil>min (flow_value f * numParticlesMultiplicator ps) (maxParticles ps)\<rceil>)
   \<and> ((\<forall>rs. valuesRatiosByFoodGroup f = Some rs \<longrightarrow> tables_cover tb rs)
        \<longrightarrow> (\<exists>k' trips. getPathTrips tb rnd k p f ps = Inr (k', trips)))"
proof (intro conjI allI impI)
  assume "valuesRatiosByFoodGroup f = None"
  then show "\<exists>k'. getPathTrips tb rnd k p f ps = Inr (k', [])" by (rule getPathTrips_absent)
next
  fix M k' trips
  assume a: "maxParticles ps = real M \<and> getPathTrips tb rnd k p f ps = Inr (k', trips)"
  then have l: "length trips \<le> nat \<lceil>numParticles ps f\<rceil>"
    using getPathTrips_Inr_length by blast
  then show "length trips
       \<le> nat \<lceil>min (flow_value f * numParticlesMultiplicator ps) (maxParticles ps)\<rceil>"
    by (simp add: numParticles_def)
  have "\<lceil>numParticles ps f\<rceil> \<le> \<lceil>real M\<rceil>"
    using a by (intro ceiling_mono) (simp add: numParticles_def)
  then have "length trips \<le> M" using l by linarith
  then show "real (length trips) \<le> maxParticles ps" using a by simp
next
  assume c: "\<forall>rs. valuesRatiosByFoodGroup f = Some rs \<longrightarrow> tables_cover tb rs"
  show "\<exists>k' trips. getPathTrips tb rnd k p f ps = Inr (k', trips)"
  proof (cases "valuesRatiosByFoodGroup f")
    case None
    then show ?thesis using getPathTrips_absent [of f tb rnd k p ps] by blast
  next
    case (Some rs)
    then have "tables_cover tb rs" using c by blast
    then obtain st where "getPathTrips tb rnd k p f ps = Inr st"
      using getPathTrips_returns [OF Some] by blast
    then show ?thesis by (cases st) auto
  qed
qed

theorem getPathTrips_bounded_witness:
  "maxParticles default_trip_params = real 500
   \<and> valuesRatiosByFoodGroup (example_flow \<lparr> valuesRatiosByFoodGroup := None \<rparr>) = None
   \<and> (\<exists>k'. getPathTrips example_tables example_random 0 example_path
                (example_flow \<lparr> valuesRatiosByFoodGroup := None \<rparr>) default_trip_params
              = Inr (k', []))
   \<and> getPathTrips example_tables example_random 0 example_path example_flow
        default_trip_params = Inr (6, example_result)
   \<and> real (length example_result) \<le> maxParticles default_trip_params"
proof -
  have m: "maxParticles default_trip_params = real 500"
    by (simp add: default_trip_params_def)
  have n: "valuesRatiosByFoodGroup (example_flow \<lparr> valuesRatiosByFoodGroup := None \<rparr>) = None"
    by simp
  have "\<exists>k'. getPathTrips example_tables example_random 0 example_path
                (example_flow \<lparr> valuesRatiosByFoodGroup := None \<rparr>) default_trip_params
              = Inr (k', [])"
    using getPathTrips_bounded [of "example_flow \<lparr> valuesRatiosByFoodGroup := None \<rparr>"
        example_tables example_random 0 example_path default_trip_params] n
    by blast
  moreover have "real (length example_result) \<le> maxParticles default_trip_params"
    using getPathTrips_bounded [of example_flow example_tables example_random 0 example_path
        default_trip_params] m example_trips
    by blast
  ultimately show ?thesis using m n example_trips by blast
qed



text \<open>
  C6. For trip \<open>i\<close> of a call entered at draw \<open>k\<close>, the category draw is \<open>r\<close>, the draw
  \<open>k + 3 * i + 2\<close>. The category index is the smallest index whose cumulative share
  exceeds \<open>r\<close>, and 0 when no share exceeds \<open>r\<close>; the trip's category is the entry of
  \<^verbatim>\<open>CATEGORIES\<close> at that index, and its colour is the channels of that category's colour
  followed by 255. For the shares \<open>[0.2, 0.5, 1.0]\<close> and \<open>r = 0.35\<close> the index is 1.
\<close>

theorem getPathTrips_category:
  assumes "getPathTrips tb rnd k p f ps = Inr (k', trips)"
    and "valuesRatiosByFoodGroup f = Some rs" and "i < length trips"
  shows "let r = rnd (k + 3 * i + 2); n = categoryIndex rs r in
           ((\<exists>j < length rs. r < rs ! j)
              \<longrightarrow> n < length rs \<and> r < rs ! n \<and> (\<forall>m < n. \<not> r < rs ! m))
         \<and> ((\<forall>j < length rs. \<not> r < rs ! j) \<longrightarrow> n = 0)
         \<and> n < length (CATEGORIES tb) \<and> foodGroup (trips ! i) = CATEGORIES tb ! n
         \<and> (\<exists>c. CATEGORIES_PROPS tb (CATEGORIES tb ! n) = Some c
                \<and> color (trips ! i) = hexToRgb tb c @ [255])
         \<and> categoryIndex [0.2, 0.5, 1.0] 0.35 = 1"
proof -
  define r where "r = rnd (k + 3 * i + 2)"
  define n where "n = categoryIndex rs r"
  have inv: "trip_inv tb rnd p f ps rs k (nat \<lceil>numParticles ps f\<rceil>) (k', trips)"
    using getPathTrips_Inr [OF assms(1,2)] .
  then have "i < nat \<lceil>numParticles ps f\<rceil>" using assms(3) by (simp add: trip_inv_def)
  with inv obtain rgb where
    look: "lookup_category tb n = Inr (foodGroup (trips ! i), rgb)"
    and col: "color (trips ! i) = rgb @ [255]"
    unfolding trip_inv_def n_def r_def by auto
  from lookup_category_Inr [OF look] have
    c: "n < length (CATEGORIES tb) \<and> foodGroup (trips ! i) = CATEGORIES tb ! n
         \<and> (\<exists>c. CATEGORIES_PROPS tb (CATEGORIES tb ! n) = Some c
                \<and> color (trips ! i) = hexToRgb tb c @ [255])"
    using col by auto
  have a: "(\<exists>j < length rs. r < rs ! j)
              \<longrightarrow> n < length rs \<and> r < rs ! n \<and> (\<forall>m < n. \<not> r < rs ! m)"
    unfolding n_def using categoryIndex_first [of _ rs r] by blast
  have b: "(\<forall>j < length rs. \<not> r < rs ! j) \<longrightarrow> n = 0"
    unfolding n_def using categoryIndex_none [of rs r] by blast
  have s: "categoryIndex [0.2, 0.5, 1.0] 0.35 = 1"
    by (simp add: categoryIndex_def)
  show ?thesis
    unfolding Let_def r_def [symmetric] n_def [symmetric] using a b c s by blast
qed

theorem getPathTrips_category_witness:
  "valuesRatiosByFoodGroup example_flow = Some [2 / 10, 5 / 10, 1]
   \<and> example_random (0 + 3 * 1 + 2) = 35 / 100
   \<and> categoryIndex [2 / 10, 5 / 10, 1] (35 / 100) = 1
   \<and> getPathTrips example_tables example_random 0 example_path example_flow
        default_trip_params = Inr (6, example_result)
   \<and> 1 < length example_result
   \<and> foodGroup (example_result ! 1) = CATEGORIES example_tables ! 1
   \<and> color (example_result ! 1) = [0, 255, 0, 255]"
proof -
  have r: "example_random (0 + 3 * 1 + 2) = 35 / 100" by (simp add: example_random_def)
  have n: "categoryIndex [2 / 10, 5 / 10, 1] (35 / 100) = 1" by (simp add: categoryIndex_def)
  note t = getPathTrips_category [OF example_trips example_shares example_second,
      unfolded Let_def r n]
  have "CATEGORIES_PROPS example_tables (CATEGORIES example_tables ! 1) = Some ''#00ff00''"
    by (simp add: example_tables_def)
  then have "color (example_result ! 1) = [0, 255, 0, 255]"
    using t by (simp add: example_tables_def)
  then show ?thesis using t example_trips example_shares example_second r n by simp
qed

text \<open>
  C2, as stated, fails on two kinds of input. With \<^verbatim>\<open>speedKpsHumanize\<close> 2 and a speed draw
  of \<open>1/10\<close> the speed is \<open>100 + (0.1 - 0.5) * 2 * 100 * 2 = -60\<close>, the duration is
  negative and the timestamps of the first trip on the example path decrease:
  \<open>-20, -20.066.., -20.166..\<close>. With the default parameters, on a path of two equal
  coordinates the total distance is 0, every ratio is \<open>0 / 0\<close> and no timestamp is a number.
\<close>

lemma example_backward_trips:
  "getPathTrips example_tables example_low_random 0 example_path example_flow
     (default_trip_params \<lparr> speedKpsHumanize := 2 \<rparr>) = Inr (6, example_backward)"
  by (simp add: getPathTrips_def for_loop_err.simps particle_def particle_waypoints_def
      numParticles_def interval_def humanizedSpeedKps_def timestampStart_def timestampEnd_def
      baseDuration_def jdiv_def jadd_def jsub_def jmul_def nth_number_def
      lookup_category_def categoryIndex_def example_backward_def
      example_tables_def example_low_random_def example_path_def example_flow_def
      default_trip_params_def Let_def)

lemma example_stalled_trips:
  "getPathTrips example_tables example_random 0 example_still_path example_flow
     default_trip_params = Inr (6, example_stalled)"
  by (simp add: getPathTrips_def for_loop_err.simps particle_def particle_waypoints_def
      numParticles_def interval_def humanizedSpeedKps_def timestampStart_def timestampEnd_def
      baseDuration_def jdiv_def jadd_def jsub_def jmul_def nth_number_def
      lookup_category_def categoryIndex_def example_stalled_def
      example_tables_def example_random_def example_still_path_def example_flow_def
      default_trip_params_def Let_def)

theorem getPathTrips_timestamps_counterexample:
  "getPathTrips example_tables example_low_random 0 example_path example_flow
     (default_trip_params \<lparr> speedKpsHumanize := 2 \<rparr>) = Inr (6, example_backward)
   \<and> map timestamp (waypoints (example_backward ! 0))
       = [Some (- 20), Some (- (301 / 15)), Some (- (121 / 6))]
   \<and> \<not> timestamps_nondecreasing (waypoints (example_backward ! 0))
   \<and> getPathTrips example_tables example_random 0 example_still_path example_flow
        default_trip_params = Inr (6, example_stalled)
   \<and> map timestamp (waypoints (example_stalled ! 0)) = [None, None]
   \<and> \<not> timestamps_nondecreasing (waypoints (example_stalled ! 0))"
proof -
  have b: "\<not> timestamps_nondecreasing (waypoints (example_backward ! 0))"
  proof
    assume "timestamps_nondecreasing (waypoints (example_backward ! 0))"
    from this [unfolded timestamps_nondecreasing_def, rule_format, of 1 0]
    show False by (simp add: example_backward_def)
  qed
  have s: "\<not> timestamps_nondecreasing (waypoints (example_stalled ! 0))"
  proof
    assume "timestamps_nondecreasing (waypoints (example_stalled ! 0))"
    from this [unfolded timestamps_nondecreasing_def, rule_format, of 1 0]
    show False by (simp add: example_stalled_def)
  qed
  show ?thesis
    using b s example_backward_trips example_stalled_trips
    by (simp add: example_backward_def example_stalled_def)
qed

text \<open>
  C2, amended. Let the path have a positive total distance and segment distances that are
  not negative and reach every coordinate, and let the humanized speed of trip \<open>i\<close> of a
  call entered at draw \<open>k\<close> be positive (it is for every draw when \<^verbatim>\<open>speedKps\<close> is
  positive and \<^verbatim>\<open>speedKpsHumanize\<close> lies in \<open>[0, 1)\<close>). Then, with \<open>tS\<close> the trip's
  \<^verbatim>\<open>timestampStart\<close> and \<open>tE\<close> its \<^verbatim>\<open>timestampEnd\<close>: the waypoints are the path's
  coordinates in order, the timestamp of the \<open>j\<close>-th is \<open>tS + ratio j * (tE - tS)\<close> for the
  cumulative distance ratio at \<open>j\<close>, the timestamps do not decrease along the array, the
  first is \<open>tS\<close>, and the last is \<open>tE\<close> when the segment distances before the last
  coordinate sum to the total.
\<close>

theorem getPathTrips_timestamps:
  assumes "0 < humanizedSpeedKps ps (rnd (k + 3 * i))"
    and "0 < totalDistance p" and "\<forall>d \<in> set (distances p). 0 \<le> d"
    and "length (coordinates p) \<le> Suc (length (distances p))"
    and "getPathTrips tb rnd k p f ps = Inr (k', trips)" and "i < length trips"
  shows "let tS = timestampStart ps f i (rnd (k + 3 * i + 1));
             v = humanizedSpeedKps ps (rnd (k + 3 * i));
             tE = tS + totalDistance p / v
         in timestampEnd p tS v = Some tE \<and> tS \<le> tE
            \<and> waypoints (trips ! i)
                = map (\<lambda>j. \<lparr> wp_coordinates = coordinates p ! j,
                              timestamp = Some (tS + cumulative_ratio p j * (tE - tS)) \<rparr>)
                      [0..<length (coordinates p)]
            \<and> timestamps_nondecreasing (waypoints (trips ! i))
            \<and> (coordinates p \<noteq> [] \<longrightarrow> timestamp (hd (waypoints (trips ! i))) = Some tS)
            \<and> (coordinates p \<noteq> []
                  \<and> sum_list (take (length (coordinates p) - 1) (distances p)) = totalDistance p
                \<longrightarrow> timestamp (last (waypoints (trips ! i))) = Some tE)"
proof -
  define tS where "tS = timestampStart ps f i (rnd (k + 3 * i + 1))"
  define v where "v = humanizedSpeedKps ps (rnd (k + 3 * i))"
  define tE where "tE = tS + totalDistance p / v"
  define n where "n = length (coordinates p)"
  define wps where "wps = waypoints (trips ! i)"
  have v: "0 < v"
    unfolding v_def using assms(1) .
  have e: "timestampEnd p tS v = Some tE"
    using v by (simp add: timestampEnd_def baseDuration_def jadd_def jdiv_def tE_def)
  have d: "0 < tE - tS" using v assms(2) by (simp add: tE_def)
  obtain rs where rs: "valuesRatiosByFoodGroup f = Some rs"
  proof (cases "valuesRatiosByFoodGroup f")
    case None
    then have "trips = []" using getPathTrips_absent [of f tb rnd k p ps] assms(5) by auto
    then show ?thesis using assms(6) by simp
  next
    case (Some rs)
    then show ?thesis by (rule that)
  qed
  have inv: "trip_inv tb rnd p f ps rs k (nat \<lceil>numParticles ps f\<rceil>) (k', trips)"
    using getPathTrips_Inr [OF assms(5) rs] .
  then have "wps = particle_waypoints rnd p f ps i (k + 3 * i)"
    using assms(6) by (simp add: trip_inv_def wps_def)
  also have "\<dots> = map (\<lambda>j. \<lparr> wp_coordinates = coordinates p ! j,
                       timestamp = Some (timestampStart ps f i (rnd (k + 3 * i + 1))
                         + cumulative_ratio p j
                           * (totalDistance p / humanizedSpeedKps ps (rnd (k + 3 * i)))) \<rparr>)
               [0..<length (coordinates p)]"
    using assms(2,4) v by (intro particle_waypoints_closed) (simp_all add: v_def)
  finally have w: "wps = map (\<lambda>j. \<lparr> wp_coordinates = coordinates p ! j,
                              timestamp = Some (tS + cumulative_ratio p j * (tE - tS)) \<rparr>)
                      [0..<n]"
    by (simp add: tS_def v_def tE_def n_def)
  have len: "length wps = n" using w by simp
  have nth: "\<And>j. j < n \<Longrightarrow> timestamp (wps ! j) = Some (tS + cumulative_ratio p j * (tE - tS))"
    using w by simp
  have mono: "timestamps_nondecreasing wps"
    unfolding timestamps_nondecreasing_def
  proof (intro allI impI)
    fix b a assume b: "b < length wps" and a: "a \<le> b"
    have "cumulative_ratio p a \<le> cumulative_ratio p b"
      using assms(2,3) a by (rule cumulative_ratio_mono)
    then have "cumulative_ratio p a * (tE - tS) \<le> cumulative_ratio p b * (tE - tS)"
      using d by (simp add: mult_right_mono)
    then show "case (timestamp (wps ! a), timestamp (wps ! b)) of
                 (Some x, Some y) \<Rightarrow> x \<le> y | _ \<Rightarrow> False"
      using a b len by (simp add: nth)
  qed
  have first: "coordinates p \<noteq> [] \<longrightarrow> timestamp (hd wps) = Some tS"
  proof
    assume "coordinates p \<noteq> []"
    then have "0 < n" by (simp add: n_def)
    then have "wps \<noteq> []" using len by auto
    then have "hd wps = wps ! 0" by (rule hd_conv_nth)
    then show "timestamp (hd wps) = Some tS"
      using nth [OF \<open>0 < n\<close>] by (simp add: cumulative_ratio_def)
  qed
  have final: "coordinates p \<noteq> []
                  \<and> sum_list (take (length (coordinates p) - 1) (distances p)) = totalDistance p
                \<longrightarrow> timestamp (last wps) = Some tE"
  proof
    assume h: "coordinates p \<noteq> []
                  \<and> sum_list (take (length (coordinates p) - 1) (distances p)) = totalDistance p"
    then have "0 < n" by (simp add: n_def)
    then have "wps \<noteq> []" using len by auto
    then have "last wps = wps ! (n - 1)" using len by (simp add: last_conv_nth)
    moreover have "cumulative_ratio p (n - 1) = 1"
      using h assms(2) by (simp add: cumulative_ratio_def n_def)
    ultimately show "timestamp (last wps) = Some tE"
      using nth [of "n - 1"] \<open>0 < n\<close> by simp
  qed
  have le: "tS \<le> tE" using d by simp
  have "timestampEnd p tS v = Some tE \<and> tS \<le> tE
            \<and> wps = map (\<lambda>j. \<lparr> wp_coordinates = coordinates p ! j,
                              timestamp = Some (tS + cumulative_ratio p j * (tE - tS)) \<rparr>)
                      [0..<n]
            \<and> timestamps_nondecreasing wps
            \<and> (coordinates p \<noteq> [] \<longrightarrow> timestamp (hd wps) = Some tS)
            \<and> (coordinates p \<noteq> []
                  \<and> sum_list (take (length (coordinates p) - 1) (distances p)) = totalDistance p
                \<longrightarrow> timestamp (last wps) = Some tE)"
    using e le w mono first final by blast
  then show ?thesis
    unfolding Let_def tS_def v_def tE_def wps_def n_def .
qed

theorem getPathTrips_timestamps_witness:
  "0 < humanizedSpeedKps default_trip_params (example_random (0 + 3 * 1))
   \<and> 0 < totalDistance example_path
   \<and> length (coordinates example_path) \<le> Suc (length (distances example_path))
   \<and> getPathTrips example_tables example_random 0 example_path example_flow
        default_trip_params = Inr (6, example_result)
   \<and> 1 < length example_result
   \<and> timestamps_nondecreasing (waypoints (example_result ! 1))
   \<and> map timestamp (waypoints (example_result ! 1))
       = [Some 50, Some (1251 / 25), Some (501 / 10)]"
proof -
  have "in_unit example_random" "0 < speedKps default_trip_params"
      "0 \<le> speedKpsHumanize default_trip_params" "speedKpsHumanize default_trip_params < 1"
    by (simp_all add: example_unit default_trip_params_def)
  then have s: "0 < humanizedSpeedKps default_trip_params (example_random (0 + 3 * 1))"
    by (intro humanizedSpeedKps_pos) (simp_all add: in_unit_def)
  have p: "0 < totalDistance example_path" "\<forall>d \<in> set (distances example_path). 0 \<le> d"
      "length (coordinates example_path) \<le> Suc (length (distances example_path))"
    by (simp_all add: example_path_def)
  note t = getPathTrips_timestamps [OF s p example_trips example_second, unfolded Let_def]
  then have m: "timestamps_nondecreasing (waypoints (example_result ! 1))"
    by blast
  have "map timestamp (waypoints (example_result ! 1))
       = [Some 50, Some (1251 / 25), Some (501 / 10)]"
    by (simp add: example_result_def)
  then show ?thesis using m example_trips example_second s p(1,3) by simp
qed

end
